theory Spec2Isabelle
  imports Main
begin

section \<open>The event booking portal: stored data\<close>

text \<open>
  The repository is a React client over a Postgres schema (the migration file with the
  tables \<^verbatim>\<open>user_profiles\<close>, \<^verbatim>\<open>events\<close>, \<^verbatim>\<open>bookings\<close>, their row-level
  security policies and two triggers). The reservation logic lives in the schema: the
  client only issues single \<^verbatim>\<open>insert\<close>/\<^verbatim>\<open>update\<close>/\<^verbatim>\<open>delete\<close> statements.

  A table is the list of its rows. A \<^verbatim>\<open>uuid\<close> is an opaque key. The descriptive
  columns of an event (description, event_date, location, image_url, price, the
  timestamps, created_by) carry no constraint that any statement below reads; \<open>title\<close>
  stands for them.
\<close>

type_synonym uuid = nat

text \<open>
  \<^verbatim>\<open>is_admin boolean DEFAULT false\<close> is read by the test \<^verbatim>\<open>is_admin = true\<close>
  only, which a null fails as \<^verbatim>\<open>false\<close> does.
\<close>

record user_profile =
  up_id :: uuid
  is_admin :: bool

record event =
  ev_id :: uuid
  title :: string
  total_seats :: int
  available_seats :: int

text \<open>
  \<^verbatim>\<open>booking_status text DEFAULT 'confirmed' CHECK (booking_status IN ('confirmed', 'cancelled'))\<close>
  has no \<^verbatim>\<open>NOT NULL\<close>: the column is a nullable text.
\<close>

record booking =
  bk_id :: uuid
  user_id :: uuid
  event_id :: uuid
  seats_booked :: int
  booking_status :: "string option"

record db =
  user_profiles :: "user_profile list"
  events :: "event list"
  bookings :: "booking list"

abbreviation confirmed :: "string option" where
  "confirmed \<equiv> Some ''confirmed''"

abbreviation cancelled :: "string option" where
  "cancelled \<equiv> Some ''cancelled''"

section \<open>Errors of the store\<close>

text \<open>
  A statement either commits or raises; a raised error aborts the statement together
  with everything its triggers did. The constraint names are the ones Postgres derives
  from the table and column names of the migration.
\<close>

datatype constraint_name =
    events_pkey
  | events_available_seats_check
  | events_total_seats_check
  | bookings_pkey
  | bookings_booking_status_check
  | bookings_seats_booked_check
  | bookings_user_id_event_id_booking_status_key
  | bookings_user_id_fkey
  | bookings_event_id_fkey

datatype db_error =
    NumericValueOutOfRange
  | RlsViolation
  | CheckViolation constraint_name
  | UniqueViolation constraint_name
  | ForeignKeyViolation constraint_name

text \<open>The columns are of type \<^verbatim>\<open>integer\<close>: 32 bits, and a value outside raises.\<close>

definition int4 :: "int \<Rightarrow> bool" where
  "int4 x = (- 2147483648 \<le> x \<and> x \<le> 2147483647)"

section \<open>Row-level security\<close>

text \<open>
  Every statement runs for a caller: \<open>Some u\<close> is the role \<^verbatim>\<open>authenticated\<close> with
  \<^verbatim>\<open>auth.uid() = u\<close>, \<open>None\<close> is the role \<^verbatim>\<open>anon\<close>, for which the only policy is
  \<^verbatim>\<open>"Public can view events"\<close>.

  The admin policies on \<^verbatim>\<open>events\<close> all have the condition
  \<^verbatim>\<open>EXISTS (SELECT 1 FROM user_profiles WHERE user_profiles.id = auth.uid()
  AND user_profiles.is_admin = true)\<close>.
\<close>

definition is_admin_user :: "db \<Rightarrow> uuid option \<Rightarrow> bool" where
  "is_admin_user d a =
     (case a of
        None \<Rightarrow> False
      | Some u \<Rightarrow> list_ex (\<lambda>p. up_id p = u \<and> is_admin p) (user_profiles d))"

section \<open>Statements on events\<close>

text \<open>
  \<^verbatim>\<open>total_seats integer NOT NULL CHECK (total_seats > 0)\<close> and
  \<^verbatim>\<open>available_seats integer NOT NULL CHECK (available_seats >= 0)\<close>. These are the only
  checks on an event row. Check constraints are tested in the order of their names.
\<close>

definition check_event :: "event \<Rightarrow> db_error option" where
  "check_event e =
     (if \<not> (int4 (total_seats e) \<and> int4 (available_seats e)) then Some NumericValueOutOfRange
      else if \<not> (0 \<le> available_seats e) then Some (CheckViolation events_available_seats_check)
      else if \<not> (0 < total_seats e) then Some (CheckViolation events_total_seats_check)
      else None)"

fun first_error :: "('a \<Rightarrow> db_error option) \<Rightarrow> 'a list \<Rightarrow> db_error option" where
  "first_error chk [] = None"
| "first_error chk (x # xs) =
     (case chk x of Some err \<Rightarrow> Some err | None \<Rightarrow> first_error chk xs)"

text \<open>
  \<^verbatim>\<open>UPDATE events SET ... WHERE id = eid\<close>, as the caller \<open>a\<close>. The policy
  \<^verbatim>\<open>"Admins can update events"\<close> is the only \<^verbatim>\<open>UPDATE\<close> policy of the table: for a
  caller who is not an admin its \<^verbatim>\<open>USING\<close> clause hides every row, and the statement
  updates no row and raises nothing. \<open>f\<close> is the \<^verbatim>\<open>SET\<close> clause.
\<close>

definition update_events :: "uuid option \<Rightarrow> uuid \<Rightarrow> (event \<Rightarrow> event) \<Rightarrow> db \<Rightarrow> db_error + db" where
  "update_events a eid f d =
     (if \<not> is_admin_user d a then Inr d
      else
        (case first_error check_event (map f (filter (\<lambda>e. ev_id e = eid) (events d))) of
           Some err \<Rightarrow> Inl err
         | None \<Rightarrow> Inr (d\<lparr>events := map (\<lambda>e. if ev_id e = eid then f e else e) (events d)\<rparr>)))"

text \<open>
  \<^verbatim>\<open>INSERT INTO events\<close>: the policy \<^verbatim>\<open>"Admins can create events"\<close> is a
  \<^verbatim>\<open>WITH CHECK\<close>, so a caller who is not an admin gets an error.
\<close>

definition insert_event :: "uuid option \<Rightarrow> event \<Rightarrow> db \<Rightarrow> db_error + db" where
  "insert_event a new d =
     (if \<not> (int4 (total_seats new) \<and> int4 (available_seats new)) then Inl NumericValueOutOfRange
      else if \<not> is_admin_user d a then Inl RlsViolation
      else
        (case check_event new of
           Some err \<Rightarrow> Inl err
         | None \<Rightarrow>
             if list_ex (\<lambda>e. ev_id e = ev_id new) (events d) then Inl (UniqueViolation events_pkey)
             else Inr (d\<lparr>events := events d @ [new]\<rparr>)))"

text \<open>
  \<^verbatim>\<open>DELETE FROM events WHERE id = eid\<close>; \<^verbatim>\<open>bookings.event_id\<close> is declared
  \<^verbatim>\<open>REFERENCES events(id) ON DELETE CASCADE\<close>.
\<close>

definition delete_event :: "uuid option \<Rightarrow> uuid \<Rightarrow> db \<Rightarrow> db_error + db" where
  "delete_event a eid d =
     (if \<not> is_admin_user d a then Inr d
      else if list_ex (\<lambda>e. ev_id e = eid) (events d)
      then Inr (d\<lparr>events := filter (\<lambda>e. ev_id e \<noteq> eid) (events d),
                  bookings := filter (\<lambda>b. event_id b \<noteq> eid) (bookings d)\<rparr>)
      else Inr d)"

section \<open>The triggers\<close>

text \<open>
  \<^verbatim>\<open>
  CREATE OR REPLACE FUNCTION update_seats_on_booking() RETURNS TRIGGER AS $$
  BEGIN
    IF NEW.booking_status = 'confirmed' THEN
      UPDATE events SET available_seats = available_seats - NEW.seats_booked
      WHERE id = NEW.event_id;
    END IF;
    RETURN NEW;
  END; $$ LANGUAGE plpgsql;
  \<close>
  The function is declared without \<^verbatim>\<open>SECURITY DEFINER\<close>, so its \<^verbatim>\<open>UPDATE\<close> runs as
  the caller of the statement that fired the trigger, under the policies of
  \<^verbatim>\<open>events\<close>: it is \<open>update_events\<close> for that caller.
\<close>

definition update_seats_on_booking :: "uuid option \<Rightarrow> booking \<Rightarrow> db \<Rightarrow> db_error + db" where
  "update_seats_on_booking a new d =
     (if booking_status new = confirmed
      then update_events a (event_id new)
             (\<lambda>e. e\<lparr>available_seats := available_seats e - seats_booked new\<rparr>) d
      else Inr d)"

text \<open>
  \<^verbatim>\<open>
  CREATE OR REPLACE FUNCTION restore_seats_on_cancel() RETURNS TRIGGER AS $$
  BEGIN
    IF OLD.booking_status = 'confirmed' AND NEW.booking_status = 'cancelled' THEN
      UPDATE events SET available_seats = available_seats + OLD.seats_booked
      WHERE id = OLD.event_id;
    END IF;
    RETURN NEW;
  END; $$ LANGUAGE plpgsql;
  \<close>
\<close>

definition restore_seats_on_cancel :: "uuid option \<Rightarrow> booking \<Rightarrow> booking \<Rightarrow> db \<Rightarrow> db_error + db" where
  "restore_seats_on_cancel a old new d =
     (if booking_status old = confirmed \<and> booking_status new = cancelled
      then update_events a (event_id old)
             (\<lambda>e. e\<lparr>available_seats := available_seats e + seats_booked old\<rparr>) d
      else Inr d)"

section \<open>Statements on bookings\<close>

text \<open>
  \<^verbatim>\<open>seats_booked integer NOT NULL CHECK (seats_booked > 0)\<close> and the check on
  \<^verbatim>\<open>booking_status\<close>, which a null passes.
\<close>

definition check_booking :: "booking \<Rightarrow> db_error option" where
  "check_booking b =
     (if \<not> (booking_status b = None \<or> booking_status b = confirmed \<or> booking_status b = cancelled)
      then Some (CheckViolation bookings_booking_status_check)
      else if \<not> (0 < seats_booked b) then Some (CheckViolation bookings_seats_booked_check)
      else None)"

text \<open>
  \<^verbatim>\<open>UNIQUE(user_id, event_id, booking_status)\<close>: a row conflicts with a stored row
  that agrees on the three columns; rows with a null status never conflict.
\<close>

definition unique_conflict :: "booking \<Rightarrow> booking list \<Rightarrow> bool" where
  "unique_conflict new rows =
     (booking_status new \<noteq> None \<and>
      list_ex (\<lambda>b. user_id b = user_id new \<and> event_id b = event_id new \<and>
                   booking_status b = booking_status new) rows)"

text \<open>
  \<^verbatim>\<open>INSERT INTO bookings\<close> as the caller \<open>a\<close>; \<open>bk_id new\<close> is the value of
  \<^verbatim>\<open>gen_random_uuid()\<close>. The steps, each of which aborts the statement:
  the conversion to \<^verbatim>\<open>integer\<close>; the policy \<^verbatim>\<open>"Users can create their own bookings"\<close>
  (\<^verbatim>\<open>WITH CHECK (auth.uid() = user_id AND booking_status = 'confirmed')\<close>); the check
  constraints; the primary key and the unique index; the foreign keys; and the trigger
  \<^verbatim>\<open>booking_created_trigger AFTER INSERT ... FOR EACH ROW\<close>.
\<close>

definition insert_booking :: "uuid option \<Rightarrow> booking \<Rightarrow> db \<Rightarrow> db_error + db" where
  "insert_booking a new d =
     (if \<not> int4 (seats_booked new) then Inl NumericValueOutOfRange
      else if \<not> (a = Some (user_id new) \<and> booking_status new = confirmed) then Inl RlsViolation
      else
        (case check_booking new of
           Some err \<Rightarrow> Inl err
         | None \<Rightarrow>
             if list_ex (\<lambda>b. bk_id b = bk_id new) (bookings d)
             then Inl (UniqueViolation bookings_pkey)
             else if unique_conflict new (bookings d)
             then Inl (UniqueViolation bookings_user_id_event_id_booking_status_key)
             else if \<not> list_ex (\<lambda>p. up_id p = user_id new) (user_profiles d)
             then Inl (ForeignKeyViolation bookings_user_id_fkey)
             else if \<not> list_ex (\<lambda>e. ev_id e = event_id new) (events d)
             then Inl (ForeignKeyViolation bookings_event_id_fkey)
             else update_seats_on_booking a new (d\<lparr>bookings := bookings d @ [new]\<rparr>)))"

text \<open>
  \<^verbatim>\<open>UPDATE bookings SET ... WHERE id = bid\<close> as the caller \<open>a\<close>; \<open>upd\<close> is the
  \<^verbatim>\<open>SET\<close> clause. \<^verbatim>\<open>id\<close> is the primary key, so the statement addresses one row.
  The policy \<^verbatim>\<open>"Users can update their own bookings"\<close> has
  \<^verbatim>\<open>USING (auth.uid() = user_id)\<close>, which hides the rows of other users (the statement
  then updates nothing and raises nothing), and \<^verbatim>\<open>WITH CHECK (auth.uid() = user_id)\<close>
  on the new row. There is no other \<^verbatim>\<open>UPDATE\<close> policy on the table. A foreign key
  is tested again when its column changes. The trigger
  \<^verbatim>\<open>booking_cancelled_trigger AFTER UPDATE ... FOR EACH ROW\<close> runs last.
\<close>

definition update_booking :: "uuid option \<Rightarrow> uuid \<Rightarrow> (booking \<Rightarrow> booking) \<Rightarrow> db \<Rightarrow> db_error + db" where
  "update_booking a bid upd d =
     (case find (\<lambda>b. bk_id b = bid \<and> a = Some (user_id b)) (bookings d) of
        None \<Rightarrow> Inr d
      | Some old \<Rightarrow>
          (let new = upd old;
               others = filter (\<lambda>b. bk_id b \<noteq> bid) (bookings d)
           in if \<not> int4 (seats_booked new) then Inl NumericValueOutOfRange
              else if a \<noteq> Some (user_id new) then Inl RlsViolation
              else
                (case check_booking new of
                   Some err \<Rightarrow> Inl err
                 | None \<Rightarrow>
                     if list_ex (\<lambda>b. bk_id b = bk_id new) others
                     then Inl (UniqueViolation bookings_pkey)
                     else if unique_conflict new others
                     then Inl (UniqueViolation bookings_user_id_event_id_booking_status_key)
                     else if user_id new \<noteq> user_id old \<and>
                             \<not> list_ex (\<lambda>p. up_id p = user_id new) (user_profiles d)
                     then Inl (ForeignKeyViolation bookings_user_id_fkey)
                     else if event_id new \<noteq> event_id old \<and>
                             \<not> list_ex (\<lambda>e. ev_id e = event_id new) (events d)
                     then Inl (ForeignKeyViolation bookings_event_id_fkey)
                     else restore_seats_on_cancel a old new
                            (d\<lparr>bookings := map (\<lambda>b. if bk_id b = bid then new else b) (bookings d)\<rparr>))))"

section \<open>The client\<close>

text \<open>\<^verbatim>\<open>fetchEvent\<close>: \<^verbatim>\<open>.from('events').select('*').eq('id', eventId).maybeSingle()\<close>.\<close>

definition fetchEvent :: "uuid \<Rightarrow> db \<Rightarrow> event option" where
  "fetchEvent eid d = find (\<lambda>e. ev_id e = eid) (events d)"

text \<open>
  \<^verbatim>\<open>EventDetailPage.handleBooking\<close>. \<open>user\<close> is the signed-in user of the page,
  \<open>ev\<close> the event the page holds in its state since its last \<^verbatim>\<open>fetchEvent\<close>, and
  \<open>seatsToBook\<close> the number in the form.
  \<^verbatim>\<open>
  if (!user) { setMessage('Please login to book tickets'); return; }
  if (!event) return;
  if (seatsToBook > event.available_seats) { setMessage('Not enough seats available'); return; }
  const { error } = await supabase.from('bookings').insert([{ user_id: user.id,
      event_id: event.id, seats_booked: seatsToBook, booking_status: 'confirmed' }]);
  if (error) throw error;
  setMessage('Booking confirmed! Check your dashboard.');
  \<close>
\<close>

datatype booking_outcome =
    PleaseLogin
  | NoEvent
  | NotEnoughSeats
  | BookingConfirmed
  | BookingError db_error

definition handleBooking ::
    "uuid option \<Rightarrow> event option \<Rightarrow> int \<Rightarrow> uuid \<Rightarrow> db \<Rightarrow> booking_outcome \<times> db" where
  "handleBooking user ev seatsToBook new_id d =
     (case user of
        None \<Rightarrow> (PleaseLogin, d)
      | Some u \<Rightarrow>
          (case ev of
             None \<Rightarrow> (NoEvent, d)
           | Some e \<Rightarrow>
               if seatsToBook > available_seats e then (NotEnoughSeats, d)
               else
                 (case insert_booking (Some u)
                         \<lparr>bk_id = new_id, user_id = u, event_id = ev_id e,
                          seats_booked = seatsToBook, booking_status = confirmed\<rparr> d of
                    Inl err \<Rightarrow> (BookingError err, d)
                  | Inr d' \<Rightarrow> (BookingConfirmed, d'))))"

text \<open>
  \<^verbatim>\<open>DashboardPage.handleCancelBooking\<close>; \<open>ok\<close> is the answer to the
  \<^verbatim>\<open>confirm\<close> dialog.
  \<^verbatim>\<open>
  if (!confirm('Are you sure you want to cancel this booking?')) return;
  const { error } = await supabase.from('bookings')
      .update({ booking_status: 'cancelled' }).eq('id', bookingId);
  if (error) throw error;
  await fetchBookings();
  \<close>
  The client tells a cancelled booking from a failure only by \<^verbatim>\<open>error\<close>; the
  \<^verbatim>\<open>catch\<close> branch alerts \<^verbatim>\<open>'Failed to cancel booking'\<close>.
\<close>

datatype cancel_outcome =
    CancelDeclined
  | CancelDone
  | CancelFailed db_error

definition handleCancelBooking :: "uuid option \<Rightarrow> bool \<Rightarrow> uuid \<Rightarrow> db \<Rightarrow> cancel_outcome \<times> db" where
  "handleCancelBooking a ok bookingId d =
     (if \<not> ok then (CancelDeclined, d)
      else
        (case update_booking a bookingId (\<lambda>b. b\<lparr>booking_status := cancelled\<rparr>) d of
           Inl err \<Rightarrow> (CancelFailed err, d)
         | Inr d' \<Rightarrow> (CancelDone, d')))"

text \<open>
  \<^verbatim>\<open>AdminPage.handleSubmit\<close>: the form is written to the row being edited, or
  inserted as a new event, as it is (\<^verbatim>\<open>...formData\<close>), seat counts included.
  \<^verbatim>\<open>
  if (editingEvent) {
    const { error } = await supabase.from('events')
        .update({ ...formData, updated_at: new Date().toISOString() }).eq('id', editingEvent.id);
    if (error) throw error;
  } else {
    const { error } = await supabase.from('events').insert([{ ...formData, created_by: user!.id }]);
    if (error) throw error;
  }
  \<close>
  The numbers of the form are converted to \<^verbatim>\<open>integer\<close> before any row is looked at.
\<close>

record event_form =
  form_title :: string
  form_total_seats :: int
  form_available_seats :: int

datatype submit_outcome =
    EventSaved
  | SaveFailed db_error

definition handleSubmit ::
    "uuid option \<Rightarrow> event option \<Rightarrow> event_form \<Rightarrow> uuid \<Rightarrow> db \<Rightarrow> submit_outcome \<times> db" where
  "handleSubmit a editingEvent formData new_id d =
     (case (case editingEvent of
              Some e \<Rightarrow>
                if \<not> (int4 (form_total_seats formData) \<and> int4 (form_available_seats formData))
                then Inl NumericValueOutOfRange
                else
                  update_events a (ev_id e)
                    (\<lambda>x. x\<lparr>title := form_title formData,
                           total_seats := form_total_seats formData,
                           available_seats := form_available_seats formData\<rparr>) d
            | None \<Rightarrow>
                insert_event a
                  \<lparr>ev_id = new_id, title = form_title formData,
                   total_seats = form_total_seats formData,
                   available_seats = form_available_seats formData\<rparr> d) of
        Inl err \<Rightarrow> (SaveFailed err, d)
      | Inr d' \<Rightarrow> (EventSaved, d'))"

text \<open>\<^verbatim>\<open>AdminPage.handleDelete\<close>.\<close>

datatype delete_outcome =
    DeleteDeclined
  | EventDeleted
  | DeleteFailed db_error

definition handleDelete :: "uuid option \<Rightarrow> bool \<Rightarrow> uuid \<Rightarrow> db \<Rightarrow> delete_outcome \<times> db" where
  "handleDelete a ok eventId d =
     (if \<not> ok then (DeleteDeclined, d)
      else
        (case delete_event a eventId d of
           Inl err \<Rightarrow> (DeleteFailed err, d)
         | Inr d' \<Rightarrow> (EventDeleted, d')))"

section \<open>Operations, invariants and sample data\<close>

text \<open>
  The operations a client can perform are the four handlers above. \<open>run\<close> is the
  store after an operation and \<open>succeeded\<close> tells whether the handler reported success.
\<close>

datatype op =
    Reserve "uuid option" "event option" int uuid
  | Cancel "uuid option" bool uuid
  | Submit "uuid option" "event option" event_form uuid
  | Delete "uuid option" bool uuid

fun run :: "op \<Rightarrow> db \<Rightarrow> db" where
  "run (Reserve user ev n new_id) d = snd (handleBooking user ev n new_id d)"
| "run (Cancel a ok bid) d = snd (handleCancelBooking a ok bid d)"
| "run (Submit a editing form new_id) d = snd (handleSubmit a editing form new_id d)"
| "run (Delete a ok eid) d = snd (handleDelete a ok eid d)"

fun succeeded :: "op \<Rightarrow> db \<Rightarrow> bool" where
  "succeeded (Reserve user ev n new_id) d = (fst (handleBooking user ev n new_id d) = BookingConfirmed)"
| "succeeded (Cancel a ok bid) d = (fst (handleCancelBooking a ok bid d) = CancelDone)"
| "succeeded (Submit a editing form new_id) d = (fst (handleSubmit a editing form new_id d) = EventSaved)"
| "succeeded (Delete a ok eid) d = (fst (handleDelete a ok eid d) = EventDeleted)"

fun run_all :: "op list \<Rightarrow> db \<Rightarrow> db" where
  "run_all [] d = d"
| "run_all (x # xs) d = run_all xs (run x d)"

text \<open>The seats of an event held by confirmed bookings, and the invariant of the spec.\<close>

definition confirmed_seats :: "db \<Rightarrow> uuid \<Rightarrow> int" where
  "confirmed_seats d eid =
     sum_list (map seats_booked
       (filter (\<lambda>b. event_id b = eid \<and> booking_status b = confirmed) (bookings d)))"

definition seat_invariant :: "db \<Rightarrow> bool" where
  "seat_invariant d =
     list_all (\<lambda>e. available_seats e = total_seats e - confirmed_seats d (ev_id e)) (events d)"

text \<open>The two check constraints of \<^verbatim>\<open>events\<close>, on every stored event.\<close>

definition events_ok :: "db \<Rightarrow> bool" where
  "events_ok d = list_all (\<lambda>e. 0 \<le> available_seats e \<and> 0 < total_seats e) (events d)"

text \<open>The primary key of \<^verbatim>\<open>bookings\<close> and the two values of a status.\<close>

definition bookings_ok :: "db \<Rightarrow> bool" where
  "bookings_ok d =
     (distinct (map bk_id (bookings d)) \<and>
      list_all (\<lambda>b. booking_status b = confirmed \<or> booking_status b = cancelled) (bookings d))"

text \<open>Every stored row is in the range of its column types and passes its checks.\<close>

definition stored_ok :: "db \<Rightarrow> bool" where
  "stored_ok d =
     (list_all (\<lambda>e. check_event e = None) (events d) \<and>
      list_all (\<lambda>b. int4 (seats_booked b) \<and> check_booking b = None) (bookings d))"

text \<open>
  A store with two users (1 and 2), an admin (9) and one event of five seats, none
  booked; and the same with an event whose last seat is left.
\<close>

definition sample_db :: db where
  "sample_db =
     \<lparr>user_profiles = [\<lparr>up_id = 1, is_admin = False\<rparr>, \<lparr>up_id = 2, is_admin = False\<rparr>,
                       \<lparr>up_id = 9, is_admin = True\<rparr>],
      events = [\<lparr>ev_id = 100, title = ''Art Exhibition Opening Night'',
                 total_seats = 5, available_seats = 5\<rparr>],
      bookings = []\<rparr>"

definition last_seat_db :: db where
  "last_seat_db =
     \<lparr>user_profiles = [\<lparr>up_id = 1, is_admin = False\<rparr>, \<lparr>up_id = 2, is_admin = False\<rparr>,
                       \<lparr>up_id = 9, is_admin = True\<rparr>],
      events = [\<lparr>ev_id = 100, title = ''Art Exhibition Opening Night'',
                 total_seats = 1, available_seats = 1\<rparr>],
      bookings = []\<rparr>"

definition admin_booked_db :: db where
  "admin_booked_db = run (Reserve (Some 9) (fetchEvent 100 sample_db) 2 500) sample_db"

definition user_booked_db :: db where
  "user_booked_db = run (Reserve (Some 1) (fetchEvent 100 sample_db) 2 500) sample_db"

definition admin_cancelled_db :: db where
  "admin_cancelled_db = run (Cancel (Some 9) True 500) admin_booked_db"

text \<open>The bounds of the spec on the seat counts of every event.\<close>

definition within_capacity :: "db \<Rightarrow> bool" where
  "within_capacity d =
     list_all (\<lambda>e. 0 \<le> available_seats e \<and> available_seats e \<le> total_seats e \<and> 0 < total_seats e)
       (events d)"

text \<open>
  Two users ask for the last seat, both pages showing one seat left; an admin who
  sets the event to three available seats and reserves one; and an admin who books two
  seats, saves the edit form of the event as it was loaded before the booking, and
  cancels.
\<close>

definition last_seat_race :: "op list" where
  "last_seat_race =
     [Reserve (Some 1) (fetchEvent 100 last_seat_db) 1 500,
      Reserve (Some 2) (fetchEvent 100 last_seat_db) 1 501]"

definition marked_down_trace :: "op list" where
  "marked_down_trace =
     [Submit (Some 9) (fetchEvent 100 sample_db)
        \<lparr>form_title = ''Art Exhibition Opening Night'',
         form_total_seats = 5, form_available_seats = 3\<rparr> 0,
      Reserve (Some 9) (fetchEvent 100 sample_db) 1 500]"

definition overfull_trace :: "op list" where
  "overfull_trace =
     [Reserve (Some 9) (fetchEvent 100 sample_db) 2 500,
      Submit (Some 9) (fetchEvent 100 sample_db)
        \<lparr>form_title = ''Art Exhibition Opening Night'',
         form_total_seats = 5, form_available_seats = 5\<rparr> 0,
      Cancel (Some 9) True 500]"

fun all_succeeded :: "op list \<Rightarrow> db \<Rightarrow> bool" where
  "all_succeeded [] d = True"
| "all_succeeded (x # xs) d = (succeeded x d \<and> all_succeeded xs (run x d))"


lemmas portal_defs =
  handleBooking_def handleCancelBooking_def handleSubmit_def handleDelete_def fetchEvent_def
  insert_booking_def update_booking_def insert_event_def update_events_def delete_event_def
  update_seats_on_booking_def restore_seats_on_cancel_def check_booking_def check_event_def
  unique_conflict_def is_admin_user_def int4_def

section \<open>Properties of the statements\<close>

text \<open>
  What a statement that commits has done to each table, and what it has checked.
\<close>

lemma first_error_None: "first_error chk xs = None \<longleftrightarrow> list_all (\<lambda>x. chk x = None) xs"
  by (induction xs) (auto split: option.splits)

lemma first_error_same:
  assumes "xs \<noteq> []" and "\<forall>x\<in>set xs. chk x = Some err"
  shows "first_error chk xs = Some err"
  using assms by (cases xs) auto

lemma is_admin_user_frame [simp]:
  "is_admin_user (d\<lparr>bookings := bs\<rparr>) a = is_admin_user d a"
  "is_admin_user (d\<lparr>events := es\<rparr>) a = is_admin_user d a"
  by (simp_all add: is_admin_user_def split: option.splits)

lemma update_events_frame:
  assumes "update_events a eid f d = Inr d'"
  shows "user_profiles d' = user_profiles d" and "bookings d' = bookings d"
  using assms by (auto simp: update_events_def split: if_splits option.splits)

lemma update_events_events:
  assumes "update_events a eid f d = Inr d'"
  shows "events d' = (if is_admin_user d a then map (\<lambda>e. if ev_id e = eid then f e else e) (events d) else events d)"
  using assms by (auto simp: update_events_def split: if_splits option.splits)

lemma update_events_checked:
  assumes "update_events a eid f d = Inr d'" and "is_admin_user d a" and "e \<in> set (events d)" and "ev_id e = eid"
  shows "check_event (f e) = None"
  using assms by (auto simp: update_events_def first_error_None list_all_iff split: if_splits option.splits)

lemma update_events_succeeds:
  assumes "list_all (\<lambda>e. check_event (f e) = None) (filter (\<lambda>e. ev_id e = eid) (events d))"
  shows "\<exists>d'. update_events a eid f d = Inr d'"
proof -
  have "first_error check_event (map f (filter (\<lambda>e. ev_id e = eid) (events d))) = None"
    using assms by (simp add: first_error_None list_all_iff)
  then show ?thesis by (simp add: update_events_def)
qed

lemma check_event_None: "check_event e = None \<Longrightarrow> 0 \<le> available_seats e \<and> 0 < total_seats e"
  by (auto simp: check_event_def split: if_splits)

lemma check_event_violation:
  assumes "int4 (total_seats e)" and "int4 (available_seats e)"
    and "\<not> (0 \<le> available_seats e \<and> 0 < total_seats e)"
  shows "\<exists>c. check_event e = Some (CheckViolation c)"
  using assms by (auto simp: check_event_def)

lemma update_events_ok:
  assumes "update_events a eid f d = Inr d'" and "events_ok d"
  shows "events_ok d'"
proof (cases "is_admin_user d a")
  case False
  with assms show ?thesis by (simp add: update_events_events events_ok_def)
next
  case True
  have "0 \<le> available_seats (f e) \<and> 0 < total_seats (f e)" if "e \<in> set (events d)" "ev_id e = eid" for e
    using update_events_checked [OF assms(1) True that] by (rule check_event_None)
  with assms True show ?thesis
    by (auto simp: update_events_events events_ok_def list_all_iff)
qed

lemma insert_booking_Inr:
  assumes "insert_booking a new d = Inr d'"
  shows "a = Some (user_id new)" and "booking_status new = confirmed" and "0 < seats_booked new"
    and "\<not> list_ex (\<lambda>b. bk_id b = bk_id new) (bookings d)"
    and "\<not> unique_conflict new (bookings d)"
    and "update_events a (event_id new) (\<lambda>e. e\<lparr>available_seats := available_seats e - seats_booked new\<rparr>) (d\<lparr>bookings := bookings d @ [new]\<rparr>) = Inr d'"
  using assms
  by (auto simp: insert_booking_def update_seats_on_booking_def check_booking_def split: if_splits option.splits)

lemma insert_booking_frame:
  assumes "insert_booking a new d = Inr d'"
  shows "user_profiles d' = user_profiles d" and "bookings d' = bookings d @ [new]"
    and "events d' = (if is_admin_user d a then map (\<lambda>e. if ev_id e = event_id new then e\<lparr>available_seats := available_seats e - seats_booked new\<rparr> else e) (events d) else events d)"
  using insert_booking_Inr(6) [OF assms]
  by (auto dest: update_events_frame update_events_events)

lemma update_booking_cases:
  assumes "update_booking a bid upd d = Inr d'"
  obtains (none) "find (\<lambda>b. bk_id b = bid \<and> a = Some (user_id b)) (bookings d) = None" and "d' = d"
  | (row) old where "find (\<lambda>b. bk_id b = bid \<and> a = Some (user_id b)) (bookings d) = Some old"
      and "restore_seats_on_cancel a old (upd old) (d\<lparr>bookings := map (\<lambda>b. if bk_id b = bid then upd old else b) (bookings d)\<rparr>) = Inr d'"
      and "a = Some (user_id (upd old))" and "check_booking (upd old) = None" and "int4 (seats_booked (upd old))"
      and "\<not> list_ex (\<lambda>b. bk_id b = bk_id (upd old)) (filter (\<lambda>b. bk_id b \<noteq> bid) (bookings d))"
      and "\<not> unique_conflict (upd old) (filter (\<lambda>b. bk_id b \<noteq> bid) (bookings d))"
  using assms
  by (auto simp: update_booking_def Let_def split: option.splits if_splits)

lemma restore_seats_frame:
  assumes "restore_seats_on_cancel a old new d = Inr d'"
  shows "user_profiles d' = user_profiles d" and "bookings d' = bookings d"
    and "events d' = (if booking_status old = confirmed \<and> booking_status new = cancelled \<and> is_admin_user d a
          then map (\<lambda>e. if ev_id e = event_id old then e\<lparr>available_seats := available_seats e + seats_booked old\<rparr> else e) (events d) else events d)"
  using assms
  by (auto simp: restore_seats_on_cancel_def dest: update_events_frame update_events_events split: if_splits)

lemma find_map_replace:
  assumes "find (\<lambda>b. bk_id b = bid \<and> a = Some (user_id b)) bs = Some old"
    and "bk_id new = bid" and "a = Some (user_id new)"
  shows "find (\<lambda>b. bk_id b = bid \<and> a = Some (user_id b)) (map (\<lambda>b. if bk_id b = bid then new else b) bs) = Some new"
  using assms by (induction bs) (auto split: if_splits)

lemma filter_map_replace:
  assumes "bk_id new = bid"
  shows "filter (\<lambda>b. bk_id b \<noteq> bid) (map (\<lambda>b. if bk_id b = bid then new else b) bs) = filter (\<lambda>b. bk_id b \<noteq> bid) bs"
  using assms by (induction bs) auto

lemma map_replace_idem:
  assumes "bk_id new = bid"
  shows "map (\<lambda>b. if bk_id b = bid then new else b) (map (\<lambda>b. if bk_id b = bid then new else b) bs) = map (\<lambda>b. if bk_id b = bid then new else b) bs"
  using assms by (induction bs) auto

lemma find_distinct_row:
  assumes "distinct (map bk_id bs)" and "b \<in> set bs" and "a = Some (user_id b)"
  shows "find (\<lambda>x. bk_id x = bk_id b \<and> a = Some (user_id x)) bs = Some b"
  using assms by (induction bs) (auto simp: image_iff)

lemma admin_booked_db_eq:
  "admin_booked_db =
     \<lparr>user_profiles = [\<lparr>up_id = 1, is_admin = False\<rparr>, \<lparr>up_id = 2, is_admin = False\<rparr>,
                       \<lparr>up_id = 9, is_admin = True\<rparr>],
      events = [\<lparr>ev_id = 100, title = ''Art Exhibition Opening Night'',
                 total_seats = 5, available_seats = 3\<rparr>],
      bookings = [\<lparr>bk_id = 500, user_id = 9, event_id = 100, seats_booked = 2,
                   booking_status = confirmed\<rparr>]\<rparr>"
  by (simp add: admin_booked_db_def sample_db_def portal_defs)

lemma user_booked_db_eq:
  "user_booked_db =
     \<lparr>user_profiles = [\<lparr>up_id = 1, is_admin = False\<rparr>, \<lparr>up_id = 2, is_admin = False\<rparr>,
                       \<lparr>up_id = 9, is_admin = True\<rparr>],
      events = [\<lparr>ev_id = 100, title = ''Art Exhibition Opening Night'',
                 total_seats = 5, available_seats = 5\<rparr>],
      bookings = [\<lparr>bk_id = 500, user_id = 1, event_id = 100, seats_booked = 2,
                   booking_status = confirmed\<rparr>]\<rparr>"
  by (simp add: user_booked_db_def sample_db_def portal_defs)

lemma admin_cancelled_db_eq:
  "admin_cancelled_db =
     \<lparr>user_profiles = [\<lparr>up_id = 1, is_admin = False\<rparr>, \<lparr>up_id = 2, is_admin = False\<rparr>,
                       \<lparr>up_id = 9, is_admin = True\<rparr>],
      events = [\<lparr>ev_id = 100, title = ''Art Exhibition Opening Night'',
                 total_seats = 5, available_seats = 5\<rparr>],
      bookings = [\<lparr>bk_id = 500, user_id = 9, event_id = 100, seats_booked = 2,
                   booking_status = cancelled\<rparr>]\<rparr>"
  by (simp add: admin_cancelled_db_def admin_booked_db_eq portal_defs)

section \<open>Seat accounting\<close>

text \<open>
  The header of the migration says that available seats are managed by the triggers.
  For a caller who is an admin they are: a reservation and a cancellation keep
  \<open>seat_invariant\<close>, and a reservation beyond the seats left is rejected by the check
  on \<^verbatim>\<open>available_seats\<close> when the statement commits, whatever the page showed.
  A reservation that fails leaves the store as it was.
\<close>

lemma confirmed_seats_events [simp]: "confirmed_seats (d\<lparr>events := es\<rparr>) eid = confirmed_seats d eid"
  by (simp add: confirmed_seats_def)

lemma confirmed_seats_cong: "bookings d' = bookings d \<Longrightarrow> confirmed_seats d' eid = confirmed_seats d eid"
  by (simp add: confirmed_seats_def)

lemma insert_booking_admin_invariant:
  assumes ins: "insert_booking a new d = Inr d'" and adm: "is_admin_user d a" and inv: "seat_invariant d"
  shows "seat_invariant d'"
proof -
  note fr = insert_booking_frame [OF ins]
  have cs: "confirmed_seats d' eid = confirmed_seats d eid + (if event_id new = eid then seats_booked new else 0)" for eid
    using fr(2) insert_booking_Inr(2) [OF ins] by (simp add: confirmed_seats_def)
  show ?thesis
    using inv adm unfolding seat_invariant_def fr(3) by (auto simp: list_all_iff cs)
qed

lemma sum_replace:
  assumes "distinct (map bk_id bs)" and "old \<in> set bs" and "bk_id new = bk_id old"
  shows "sum_list (map g (map (\<lambda>b. if bk_id b = bk_id old then new else b) bs)) = sum_list (map g bs) - g old + (g new :: int)"
  using assms
proof (induction bs)
  case Nil
  then show ?case by simp
next
  case (Cons x xs)
  show ?case
  proof (cases "x = old")
    case True
    with Cons.prems have "\<forall>b\<in>set xs. bk_id b \<noteq> bk_id old" by (auto simp: image_iff)
    then have "map (\<lambda>b. if bk_id b = bk_id old then new else b) xs = xs"
      by (induction xs) auto
    with True show ?thesis by simp
  next
    case False
    with Cons.prems have "old \<in> set xs" "bk_id x \<noteq> bk_id old" by (auto simp: image_iff)
    with Cons show ?thesis by simp
  qed
qed

lemma confirmed_seats_replace:
  assumes "distinct (map bk_id (bookings d))" and "old \<in> set (bookings d)" and "bk_id new = bk_id old"
  shows "confirmed_seats (d\<lparr>bookings := map (\<lambda>b. if bk_id b = bk_id old then new else b) (bookings d)\<rparr>) eid =
         confirmed_seats d eid
           - (if event_id old = eid \<and> booking_status old = confirmed then seats_booked old else 0)
           + (if event_id new = eid \<and> booking_status new = confirmed then seats_booked new else 0)"
  using sum_replace [OF assms, of "\<lambda>b. if event_id b = eid \<and> booking_status b = confirmed then seats_booked b else 0"]
  by (simp add: confirmed_seats_def sum_list_map_filter')

lemma cancel_admin_invariant:
  assumes upd: "update_booking a bid (\<lambda>b. b\<lparr>booking_status := cancelled\<rparr>) d = Inr d'"
    and adm: "is_admin_user d a" and inv: "seat_invariant d" and dist: "distinct (map bk_id (bookings d))"
  shows "seat_invariant d'"
  using upd
proof (cases rule: update_booking_cases)
  case none
  with inv show ?thesis by simp
next
  case (row old)
  let ?new = "old\<lparr>booking_status := cancelled\<rparr>"
  from row(1) have old: "old \<in> set (bookings d)" "bk_id old = bid"
    by (auto simp: find_Some_iff in_set_conv_nth)
  note fr = restore_seats_frame [OF row(2)]
  have "confirmed_seats d' eid = confirmed_seats (d\<lparr>bookings := map (\<lambda>b. if bk_id b = bk_id old then ?new else b) (bookings d)\<rparr>) eid" for eid
    using fr(2) old(2) by (intro confirmed_seats_cong) simp
  then have cs: "confirmed_seats d' eid = confirmed_seats d eid
           - (if event_id old = eid \<and> booking_status old = confirmed then seats_booked old else 0)" for eid
    using confirmed_seats_replace [OF dist old(1), of ?new eid] by simp
  show ?thesis
    using inv adm unfolding seat_invariant_def fr(3) by (auto simp: list_all_iff cs)
qed

lemma reserve_cancel_by_admin_keep_seat_invariant:
  assumes "seat_invariant d" and "distinct (map bk_id (bookings d))"
  shows "is_admin_user d user \<Longrightarrow> seat_invariant (run (Reserve user ev n new_id) d)"
    and "is_admin_user d a \<Longrightarrow> seat_invariant (run (Cancel a ok bid) d)"
  using assms
  by (auto simp: handleBooking_def handleCancelBooking_def
           dest: insert_booking_admin_invariant cancel_admin_invariant
           split: option.splits sum.splits)

lemma overbooking_by_admin_rejected:
  assumes adm: "is_admin_user d (Some u)" and ok: "stored_ok d"
    and guard: "seats \<le> available_seats e" and pos: "0 < seats" and rng: "int4 seats"
    and fresh: "\<not> list_ex (\<lambda>b. bk_id b = new_id) (bookings d)"
    and nodup: "\<not> list_ex (\<lambda>b. user_id b = u \<and> event_id b = ev_id e \<and> booking_status b = confirmed) (bookings d)"
    and row: "list_ex (\<lambda>x. ev_id x = ev_id e) (events d)"
    and short: "list_all (\<lambda>x. available_seats x < seats) (filter (\<lambda>x. ev_id x = ev_id e) (events d))"
  shows "handleBooking (Some u) (Some e) seats new_id d =
           (BookingError (CheckViolation events_available_seats_check), d)"
proof -
  let ?new = "\<lparr>bk_id = new_id, user_id = u, event_id = ev_id e, seats_booked = seats, booking_status = confirmed\<rparr>"
  let ?f = "\<lambda>x::event. x\<lparr>available_seats := available_seats x - seats\<rparr>"
  let ?rows = "map ?f (filter (\<lambda>x. ev_id x = ev_id e) (events d))"
  have prof: "list_ex (\<lambda>p. up_id p = u) (user_profiles d)"
    using adm by (auto simp: is_admin_user_def list_ex_iff)
  have "check_event (?f x) = Some (CheckViolation events_available_seats_check)"
    if "x \<in> set (events d)" "ev_id x = ev_id e" for x
  proof -
    from ok that(1) have "check_event x = None" by (auto simp: stored_ok_def list_all_iff)
    moreover from short that have "available_seats x < seats" by (auto simp: list_all_iff)
    ultimately show ?thesis using pos rng
      by (auto simp: check_event_def int4_def split: if_splits)
  qed
  then have "\<forall>x\<in>set ?rows. check_event x = Some (CheckViolation events_available_seats_check)"
    by auto
  moreover from row have "?rows \<noteq> []" by (auto simp: list_ex_iff filter_empty_conv)
  ultimately have fe: "first_error check_event ?rows = Some (CheckViolation events_available_seats_check)"
    by (intro first_error_same)
  have "update_seats_on_booking (Some u) ?new (d\<lparr>bookings := bookings d @ [?new]\<rparr>) =
          Inl (CheckViolation events_available_seats_check)"
    using adm fe by (simp add: update_seats_on_booking_def update_events_def)
  then have "insert_booking (Some u) ?new d = Inl (CheckViolation events_available_seats_check)"
    using rng pos fresh nodup prof row
    by (simp add: insert_booking_def check_booking_def unique_conflict_def)
  then show ?thesis using guard by (simp add: handleBooking_def)
qed

lemma handleBooking_failure:
  "fst (handleBooking user ev n new_id d) \<noteq> BookingConfirmed \<Longrightarrow> snd (handleBooking user ev n new_id d) = d"
  by (auto simp: handleBooking_def split: option.splits sum.splits if_splits)

text \<open>
  For any other caller the update of \<^verbatim>\<open>events\<close> inside either trigger is hidden by
  the policy \<^verbatim>\<open>"Admins can update events"\<close>: a reservation and a cancellation leave
  every event as it was.
\<close>

lemma seats_not_moved_for_other_callers:
  assumes "\<not> is_admin_user d a"
  shows "events (run (Reserve a ev n new_id) d) = events d"
    and "events (run (Cancel a ok bid) d) = events d"
proof -
  show "events (run (Reserve a ev n new_id) d) = events d"
    using assms
    by (auto simp: handleBooking_def split: option.splits sum.splits
             dest!: insert_booking_frame(3))
  show "events (run (Cancel a ok bid) d) = events d"
  proof (cases "update_booking a bid (\<lambda>b. b\<lparr>booking_status := cancelled\<rparr>) d")
    case (Inl err)
    then show ?thesis by (simp add: handleCancelBooking_def)
  next
    case (Inr d')
    then have "events d' = events d"
    proof (cases rule: update_booking_cases)
      case none
      then show ?thesis by simp
    next
      case (row old)
      from restore_seats_frame(3) [OF row(2)] assms show ?thesis by simp
    qed
    with Inr show ?thesis by (simp add: handleCancelBooking_def)
  qed
qed

text \<open>
  C1, as the spec states it: for every event, after any completed Reserve or Cancel,
  \<open>available_seats\<close> equals \<open>total_seats\<close> minus the seats of the confirmed
  bookings of the event.

  The admin form writes both counts as they are typed. The admin sets the event to
  three available seats of five, no seat being booked, and then reserves one seat: both
  steps succeed, and two seats are available where four are not booked.
\<close>

theorem seats_set_by_admin_counterexample:
  "seat_invariant sample_db \<and> all_succeeded marked_down_trace sample_db \<and>
   \<not> seat_invariant (run_all marked_down_trace sample_db)"
  by (simp add: marked_down_trace_def sample_db_def seat_invariant_def confirmed_seats_def
        portal_defs)

text \<open>
  C1, amended: a Reserve or a Cancel whose caller is an admin keeps the equation, for
  every event, if it held before (on a store where the primary key of the bookings
  holds). The create and edit of the admin page do not establish it. What the
  operations do for a caller who is not an admin is the subject of C2.
\<close>

theorem reserve_cancel_keep_seat_invariant:
  "seat_invariant d \<and> distinct (map bk_id (bookings d)) \<longrightarrow>
     (is_admin_user d user \<longrightarrow> seat_invariant (run (Reserve user ev n new_id) d)) \<and>
     (is_admin_user d a \<longrightarrow> seat_invariant (run (Cancel a ok bid) d))"
  using reserve_cancel_by_admin_keep_seat_invariant by blast

theorem reserve_cancel_keep_seat_invariant_witness:
  "seat_invariant sample_db \<and> distinct (map bk_id (bookings sample_db)) \<and>
   is_admin_user sample_db (Some 9) \<and>
   seat_invariant (run (Reserve (Some 9) (fetchEvent 100 sample_db) 2 500) sample_db) \<and>
   seat_invariant (run (Cancel (Some 9) True 500) sample_db) \<and>
   map available_seats (events (run (Reserve (Some 9) (fetchEvent 100 sample_db) 2 500) sample_db))
     = [3]"
proof -
  have inv: "seat_invariant sample_db"
    by (simp add: sample_db_def seat_invariant_def confirmed_seats_def)
  have pk: "distinct (map bk_id (bookings sample_db))"
    by (simp add: sample_db_def)
  have adm: "is_admin_user sample_db (Some 9)"
    by (simp add: sample_db_def is_admin_user_def)
  have "map available_seats
          (events (run (Reserve (Some 9) (fetchEvent 100 sample_db) 2 500) sample_db)) = [3]"
    by (simp add: sample_db_def portal_defs)
  with reserve_cancel_keep_seat_invariant
         [of sample_db "Some 9" "fetchEvent 100 sample_db" 2 500 "Some 9" True 500]
       inv pk adm
  show ?thesis by simp
qed

text \<open>
  C2. With one seat left, two Reserve calls for one seat by different users: exactly
  one succeeds, the other fails for lack of seats, and no seat is left.

  In the code both calls succeed, in either order, and the event still shows one
  seat: two bookings hold the last seat. Each insert with its trigger is one
  transaction of the store; the two calls are the two statements one after the other,
  each page holding the event as it was read before either. Users 1 and 2 are not
  admins: the trigger's update of \<^verbatim>\<open>events\<close> meets the admin-only policy and touches
  no row, so that the check on \<^verbatim>\<open>available_seats\<close> is never asked.
\<close>

theorem last_seat_booked_twice:
  "all_succeeded last_seat_race last_seat_db \<and>
   map seats_booked (bookings (run_all last_seat_race last_seat_db)) = [1, 1] \<and>
   map available_seats (events (run_all last_seat_race last_seat_db)) = [1] \<and>
   all_succeeded (rev last_seat_race) last_seat_db \<and>
   map seats_booked (bookings (run_all (rev last_seat_race) last_seat_db)) = [1, 1] \<and>
   map available_seats (events (run_all (rev last_seat_race) last_seat_db)) = [1]"
  by (simp add: last_seat_race_def last_seat_db_def portal_defs)

text \<open>
  C3, as the spec states it: a Reserve call that fails changes nothing, the lack of
  seats being judged on the stored count when the statement commits and not on a stale
  read; and no booking exists without its seat decrement.

  The page judges the lack of seats itself, on the event as it last read it. A page
  that still shows one seat refuses two seats although the store has five.
\<close>

theorem seats_judged_on_stale_read_counterexample:
  "handleBooking (Some 1)
     (Some \<lparr>ev_id = 100, title = ''Art Exhibition Opening Night'',
            total_seats = 5, available_seats = 1\<rparr>) 2 500 sample_db =
     (NotEnoughSeats, sample_db) \<and>
   map available_seats (events sample_db) = [5]"
  by (simp add: sample_db_def handleBooking_def)

text \<open>
  C3, amended: a Reserve call that fails, for any reason, creates no booking and
  leaves every seat count as it was; a call for more seats than the page shows fails
  for lack of seats before any statement is sent, whatever the store holds.
\<close>

theorem failed_reserve_changes_nothing:
  "(fst (handleBooking user ev n new_id d) \<noteq> BookingConfirmed \<longrightarrow>
      snd (handleBooking user ev n new_id d) = d) \<and>
   (available_seats e < seats \<longrightarrow>
      handleBooking (Some u) (Some e) seats new_id d = (NotEnoughSeats, d))"
  using handleBooking_failure [of user ev n new_id d]
  by (simp add: handleBooking_def)

theorem failed_reserve_changes_nothing_witness:
  "fst (handleBooking (Some 1) (fetchEvent 100 sample_db) 0 500 sample_db) \<noteq> BookingConfirmed \<and>
   snd (handleBooking (Some 1) (fetchEvent 100 sample_db) 0 500 sample_db) = sample_db \<and>
   handleBooking (Some 1) (fetchEvent 100 sample_db) 6 500 sample_db = (NotEnoughSeats, sample_db)"
proof -
  let ?e = "\<lparr>ev_id = 100, title = ''Art Exhibition Opening Night'',
             total_seats = 5, available_seats = 5\<rparr>"
  have snap: "fetchEvent 100 sample_db = Some ?e"
    by (simp add: sample_db_def fetchEvent_def)
  have failed: "fst (handleBooking (Some 1) (fetchEvent 100 sample_db) 0 500 sample_db) \<noteq> BookingConfirmed"
    by (simp add: sample_db_def portal_defs)
  have short: "available_seats ?e < 6" by simp
  from failed_reserve_changes_nothing
         [of "Some 1" "fetchEvent 100 sample_db" 0 500 sample_db ?e 6 1] failed short
  show ?thesis unfolding snap by simp
qed

section \<open>The bounds on the seat counts\<close>

lemma events_ok_frame [simp]: "events_ok (d\<lparr>bookings := bs\<rparr>) = events_ok d"
  by (simp add: events_ok_def)

lemma restore_seats_ok:
  assumes "restore_seats_on_cancel a old new d = Inr d'" and "events_ok d"
  shows "events_ok d'"
  using assms by (auto simp: restore_seats_on_cancel_def dest: update_events_ok split: if_splits)

lemma insert_booking_ok:
  assumes "insert_booking a new d = Inr d'" and "events_ok d"
  shows "events_ok d'"
  using update_events_ok [OF insert_booking_Inr(6) [OF assms(1)]] assms(2) by simp

lemma update_booking_ok:
  assumes "update_booking a bid upd d = Inr d'" and "events_ok d"
  shows "events_ok d'"
  using assms(1)
proof (cases rule: update_booking_cases)
  case none
  with assms(2) show ?thesis by simp
next
  case (row old)
  from restore_seats_ok [OF row(2)] assms(2) show ?thesis by simp
qed

lemma insert_event_ok:
  assumes "insert_event a new d = Inr d'" and "events_ok d"
  shows "events_ok d'"
  using assms
  by (auto simp: insert_event_def events_ok_def dest: check_event_None split: if_splits option.splits)

lemma delete_event_ok:
  assumes "delete_event a eid d = Inr d'" and "events_ok d"
  shows "events_ok d'"
  using assms by (auto simp: delete_event_def events_ok_def list_all_iff split: if_splits)

lemma run_events_ok:
  assumes "events_ok d"
  shows "events_ok (run op d)"
proof (cases op)
  case (Reserve user ev n new_id)
  with assms show ?thesis
    by (auto simp: handleBooking_def dest: insert_booking_ok split: option.splits sum.splits)
next
  case (Cancel a ok bid)
  with assms show ?thesis
    by (auto simp: handleCancelBooking_def dest: update_booking_ok split: sum.splits)
next
  case (Submit a editing form new_id)
  with assms show ?thesis
    by (auto simp: handleSubmit_def dest: update_events_ok insert_event_ok split: option.splits sum.splits)
next
  case (Delete a ok eid)
  with assms show ?thesis
    by (auto simp: handleDelete_def dest: delete_event_ok split: sum.splits)
qed

lemma run_rejected:
  assumes "\<not> succeeded op d"
  shows "run op d = d"
  using assms
  by (cases op)
     (auto simp: handleBooking_def handleCancelBooking_def handleSubmit_def handleDelete_def
           split: option.splits sum.splits if_splits)

lemma submit_violation:
  assumes adm: "is_admin_user d a"
    and rng: "int4 (form_total_seats form)" "int4 (form_available_seats form)"
    and bad: "\<not> (0 \<le> form_available_seats form \<and> 0 < form_total_seats form)"
    and row: "case editing of None \<Rightarrow> True | Some e \<Rightarrow> list_ex (\<lambda>x. ev_id x = ev_id e) (events d)"
  shows "\<exists>c. handleSubmit a editing form new_id d = (SaveFailed (CheckViolation c), d)"
proof (cases editing)
  case None
  let ?new = "\<lparr>ev_id = new_id, title = form_title form, total_seats = form_total_seats form,
               available_seats = form_available_seats form\<rparr>"
  from check_event_violation [of ?new] rng bad
  obtain c where "check_event ?new = Some (CheckViolation c)" by auto
  with None adm rng show ?thesis by (simp add: handleSubmit_def insert_event_def)
next
  case (Some e)
  let ?f = "\<lambda>x::event. x\<lparr>title := form_title form, total_seats := form_total_seats form,
                         available_seats := form_available_seats form\<rparr>"
  let ?rows = "map ?f (filter (\<lambda>x. ev_id x = ev_id e) (events d))"
  from check_event_violation [of "?f e"] rng bad
  obtain c where c: "check_event (?f e) = Some (CheckViolation c)" by auto
  have same: "check_event (?f x) = check_event (?f e)" for x
    by (simp add: check_event_def)
  from row Some have "?rows \<noteq> []" by (auto simp: list_ex_iff filter_empty_conv)
  moreover have "\<forall>x\<in>set ?rows. check_event x = Some (CheckViolation c)"
    using c same by auto
  ultimately have "first_error check_event ?rows = Some (CheckViolation c)"
    by (rule first_error_same)
  with Some adm rng show ?thesis by (simp add: handleSubmit_def update_events_def)
qed

text \<open>
  C4, as the spec states it: after every mutation \<open>0 \<le> available_seats \<le> total_seats\<close>
  and \<open>0 < total_seats\<close>, and a mutation that would break the bounds fails.

  The store checks \<open>0 \<le> available_seats\<close> and \<open>0 < total_seats\<close> and nothing else.
  The admin books two seats, saves the edit form with the five available seats it was
  loaded with, and cancels the booking: every step succeeds and the event has seven
  available seats of five.
\<close>

theorem available_seats_above_total_counterexample:
  "within_capacity sample_db \<and> all_succeeded overfull_trace sample_db \<and>
   \<not> within_capacity (run_all overfull_trace sample_db)"
  by (simp add: overfull_trace_def sample_db_def within_capacity_def portal_defs)

text \<open>
  C4, amended: after every operation \<open>0 \<le> available_seats\<close> and \<open>0 < total_seats\<close>
  hold for every event, if they held before; an operation that does not succeed leaves
  the store as it was; and an admin's create or edit whose seat counts break one of the
  two bounds fails with a check violation and changes nothing.
\<close>

theorem checks_hold_after_every_mutation:
  "(events_ok d \<longrightarrow> events_ok (run op d)) \<and>
   (\<not> succeeded op d \<longrightarrow> run op d = d) \<and>
   (is_admin_user d a \<and> int4 (form_total_seats form) \<and> int4 (form_available_seats form) \<and>
    \<not> (0 \<le> form_available_seats form \<and> 0 < form_total_seats form) \<and>
    (case editing of None \<Rightarrow> True | Some e \<Rightarrow> list_ex (\<lambda>x. ev_id x = ev_id e) (events d)) \<longrightarrow>
    (\<exists>c. handleSubmit a editing form new_id d = (SaveFailed (CheckViolation c), d)))"
  using run_events_ok [of d op] run_rejected [of op d] submit_violation [of d a form editing new_id]
  by blast

theorem checks_hold_after_every_mutation_witness:
  "events_ok sample_db \<and>
   events_ok (run (Reserve (Some 9) (fetchEvent 100 sample_db) 6 500) sample_db) \<and>
   \<not> succeeded (Reserve (Some 9) (fetchEvent 100 sample_db) 6 500) sample_db \<and>
   run (Reserve (Some 9) (fetchEvent 100 sample_db) 6 500) sample_db = sample_db \<and>
   is_admin_user sample_db (Some 9) \<and>
   handleSubmit (Some 9) (fetchEvent 100 sample_db)
     \<lparr>form_title = ''Art Exhibition Opening Night'', form_total_seats = 0,
      form_available_seats = 0\<rparr> 0 sample_db =
     (SaveFailed (CheckViolation events_total_seats_check), sample_db)"
  using checks_hold_after_every_mutation
          [of sample_db "Reserve (Some 9) (fetchEvent 100 sample_db) 6 500" "Some 9"
              "\<lparr>form_title = ''Art Exhibition Opening Night'', form_total_seats = 0,
                form_available_seats = 0\<rparr>"
              "fetchEvent 100 sample_db" 0]
  by (simp add: sample_db_def events_ok_def portal_defs)

section \<open>Cancellation\<close>

text \<open>
  C5, as the spec states it: of two Cancel calls on the same booking the first succeeds
  and the second yields \<open>AlreadyCancelled\<close>.

  The client has one result for both: the update of an already cancelled row raises
  nothing, and the second call reports what the first did.
\<close>

theorem second_cancel_reports_success_counterexample:
  "fst (handleCancelBooking (Some 9) True 500 admin_booked_db) = CancelDone \<and>
   snd (handleCancelBooking (Some 9) True 500 admin_booked_db) = admin_cancelled_db \<and>
   fst (handleCancelBooking (Some 9) True 500 admin_cancelled_db) = CancelDone"
  by (simp add: admin_cancelled_db_eq admin_booked_db_eq portal_defs)

text \<open>
  C5, amended: when a Cancel call completes, a second Cancel call on the same booking
  id completes with the same result and changes nothing in the store; the first call
  either left the seat counts as they were or added the seats of the booking, which it
  found confirmed, to its event. The seats are so restored at most once, and never by
  cancelling a cancelled booking.
\<close>

theorem second_cancel_changes_nothing:
  assumes "handleCancelBooking a True bid d = (CancelDone, d1)"
  shows "handleCancelBooking a True bid d1 = (CancelDone, d1) \<and>
         (events d1 = events d \<or>
          (\<exists>b\<in>set (bookings d). bk_id b = bid \<and> booking_status b = confirmed \<and>
             events d1 = map (\<lambda>e. if ev_id e = event_id b
                                   then e\<lparr>available_seats := available_seats e + seats_booked b\<rparr>
                                   else e) (events d)))"
proof -
  let ?upd = "\<lambda>b::booking. b\<lparr>booking_status := cancelled\<rparr>"
  from assms have upd: "update_booking a bid ?upd d = Inr d1"
    by (auto simp: handleCancelBooking_def split: sum.splits)
  from upd show ?thesis
  proof (cases rule: update_booking_cases)
    case none
    then show ?thesis by (simp add: handleCancelBooking_def update_booking_def)
  next
    case (row old)
    let ?new = "?upd old"
    let ?bs = "map (\<lambda>b. if bk_id b = bid then ?new else b) (bookings d)"
    from row(1) have old: "old \<in> set (bookings d)" "bk_id old = bid"
      by (auto simp: find_Some_iff in_set_conv_nth)
    note fr = restore_seats_frame [OF row(2)]
    have bs1: "bookings d1 = ?bs" using fr(2) by simp
    have f1: "find (\<lambda>b. bk_id b = bid \<and> a = Some (user_id b)) (bookings d1) = Some ?new"
      unfolding bs1 using row(1) old(2) row(3) by (intro find_map_replace) simp_all
    have others: "filter (\<lambda>b. bk_id b \<noteq> bid) (bookings d1) = filter (\<lambda>b. bk_id b \<noteq> bid) (bookings d)"
      unfolding bs1 using old(2) by (intro filter_map_replace) simp
    have idem: "map (\<lambda>b. if bk_id b = bid then ?new else b) (bookings d1) = bookings d1"
      unfolding bs1 using old(2) by (intro map_replace_idem) simp
    have "update_booking a bid ?upd d1 = Inr d1"
      using f1 others idem row(3-7)
      by (simp add: update_booking_def Let_def restore_seats_on_cancel_def)
    moreover have "events d1 = events d \<or>
          (\<exists>b\<in>set (bookings d). bk_id b = bid \<and> booking_status b = confirmed \<and>
             events d1 = map (\<lambda>e. if ev_id e = event_id b
                                   then e\<lparr>available_seats := available_seats e + seats_booked b\<rparr>
                                   else e) (events d))"
      using fr(3) old by (auto split: if_splits)
    ultimately show ?thesis by (simp add: handleCancelBooking_def)
  qed
qed

theorem second_cancel_changes_nothing_witness:
  "handleCancelBooking (Some 9) True 500 admin_booked_db = (CancelDone, admin_cancelled_db) \<and>
   handleCancelBooking (Some 9) True 500 admin_cancelled_db = (CancelDone, admin_cancelled_db) \<and>
   map available_seats (events admin_booked_db) = [3] \<and>
   map available_seats (events admin_cancelled_db) = [5]"
proof -
  have first: "handleCancelBooking (Some 9) True 500 admin_booked_db = (CancelDone, admin_cancelled_db)"
    by (simp add: admin_cancelled_db_eq admin_booked_db_eq portal_defs)
  from second_cancel_changes_nothing [OF first] first show ?thesis
    by (simp add: admin_cancelled_db_eq admin_booked_db_eq)
qed

lemma cancel_by_other_is_noop:
  assumes "\<not> list_ex (\<lambda>b. bk_id b = bid \<and> a = Some (user_id b)) (bookings d)"
  shows "handleCancelBooking a True bid d = (CancelDone, d)"
proof -
  from assms have "find (\<lambda>b. bk_id b = bid \<and> a = Some (user_id b)) (bookings d) = None"
    by (simp add: find_None_iff list_ex_iff)
  then show ?thesis by (simp add: handleCancelBooking_def update_booking_def)
qed

lemma cancel_by_owner_succeeds:
  assumes ok: "stored_ok d" and dist: "distinct (map bk_id (bookings d))"
    and b: "b \<in> set (bookings d)" and a: "a = Some (user_id b)"
    and uniq: "\<not> list_ex (\<lambda>x. bk_id x \<noteq> bk_id b \<and> user_id x = user_id b \<and> event_id x = event_id b \<and>
                    booking_status x = cancelled) (bookings d)"
    and room: "list_all (\<lambda>e. available_seats e + seats_booked b \<le> 2147483647)
                  (filter (\<lambda>e. ev_id e = event_id b) (events d))"
  shows "\<exists>d'. handleCancelBooking a True (bk_id b) d = (CancelDone, d') \<and>
              bookings d' = map (\<lambda>x. if bk_id x = bk_id b then b\<lparr>booking_status := cancelled\<rparr> else x) (bookings d)"
proof -
  let ?new = "b\<lparr>booking_status := cancelled\<rparr>"
  let ?d = "d\<lparr>bookings := map (\<lambda>x. if bk_id x = bk_id b then ?new else x) (bookings d)\<rparr>"
  have f: "find (\<lambda>x. bk_id x = bk_id b \<and> a = Some (user_id x)) (bookings d) = Some b"
    using dist b a by (rule find_distinct_row)
  from ok b have row: "int4 (seats_booked b)" "check_booking b = None"
    by (auto simp: stored_ok_def list_all_iff)
  then have pos: "0 < seats_booked b" by (auto simp: check_booking_def split: if_splits)
  have chk: "check_booking ?new = None" using pos by (simp add: check_booking_def)
  have nu: "\<not> unique_conflict ?new (filter (\<lambda>x. bk_id x \<noteq> bk_id b) (bookings d))"
    using uniq by (auto simp: unique_conflict_def list_ex_iff)
  have "list_all (\<lambda>e. check_event (e\<lparr>available_seats := available_seats e + seats_booked b\<rparr>) = None)
          (filter (\<lambda>e. ev_id e = event_id b) (events ?d))"
    using ok room pos row(1)
    by (auto simp: stored_ok_def list_all_iff check_event_def int4_def split: if_splits)
  from update_events_succeeds [OF this, of a]
  obtain d' where d': "update_events a (event_id b)
      (\<lambda>e. e\<lparr>available_seats := available_seats e + seats_booked b\<rparr>) ?d = Inr d'" by blast
  have "\<exists>d'. restore_seats_on_cancel a b ?new ?d = Inr d'"
    using d' by (simp add: restore_seats_on_cancel_def)
  then obtain d'' where r: "restore_seats_on_cancel a b ?new ?d = Inr d''" by blast
  have "update_booking a (bk_id b) (\<lambda>b. b\<lparr>booking_status := cancelled\<rparr>) d = Inr d''"
    using f row(1) a chk nu r by (simp add: update_booking_def Let_def list_ex_iff)
  moreover have "bookings d'' = bookings ?d" using restore_seats_frame(2) [OF r] .
  ultimately show ?thesis by (simp add: handleCancelBooking_def)
qed

text \<open>
  C8, as the spec states it: a Cancel call by a requester who is neither the owner nor
  an admin fails with \<open>Forbidden\<close>, and the owner and any admin can cancel.

  The only update policy on \<^verbatim>\<open>bookings\<close> is the owner's. For user 2 and for the admin
  the booking of user 1 is not a row the statement can see: the call reports success,
  nothing is raised, and the booking stays confirmed.
\<close>

theorem cancel_by_non_owner_counterexample:
  "handleCancelBooking (Some 2) True 500 user_booked_db = (CancelDone, user_booked_db) \<and>
   is_admin_user user_booked_db (Some 9) \<and>
   handleCancelBooking (Some 9) True 500 user_booked_db = (CancelDone, user_booked_db) \<and>
   map booking_status (bookings user_booked_db) = [confirmed]"
  by (simp add: user_booked_db_eq portal_defs)

text \<open>
  C8, amended: a Cancel call by a requester who does not own the booking, admin or
  not, changes nothing and reports no error; the owner can cancel: on a store whose rows
  pass their checks the owner's call succeeds and the booking is cancelled, unless the
  owner already has a cancelled booking of the same event (the unique constraint) or
  the seat count would leave the range of an integer.
\<close>

theorem cancel_only_by_owner:
  "(\<not> list_ex (\<lambda>b. bk_id b = bid \<and> a = Some (user_id b)) (bookings d) \<longrightarrow>
      handleCancelBooking a True bid d = (CancelDone, d)) \<and>
   (stored_ok d \<and> bookings_ok d \<and> b \<in> set (bookings d) \<and>
    \<not> list_ex (\<lambda>x. bk_id x \<noteq> bk_id b \<and> user_id x = user_id b \<and> event_id x = event_id b \<and>
                   booking_status x = cancelled) (bookings d) \<and>
    list_all (\<lambda>e. available_seats e + seats_booked b \<le> 2147483647)
      (filter (\<lambda>e. ev_id e = event_id b) (events d)) \<longrightarrow>
      (\<exists>d'. handleCancelBooking (Some (user_id b)) True (bk_id b) d = (CancelDone, d') \<and>
            bookings d' =
              map (\<lambda>x. if bk_id x = bk_id b then b\<lparr>booking_status := cancelled\<rparr> else x)
                (bookings d)))"
proof (intro conjI impI)
  assume "\<not> list_ex (\<lambda>b. bk_id b = bid \<and> a = Some (user_id b)) (bookings d)"
  then show "handleCancelBooking a True bid d = (CancelDone, d)"
    by (rule cancel_by_other_is_noop)
next
  assume h: "stored_ok d \<and> bookings_ok d \<and> b \<in> set (bookings d) \<and>
    \<not> list_ex (\<lambda>x. bk_id x \<noteq> bk_id b \<and> user_id x = user_id b \<and> event_id x = event_id b \<and>
                   booking_status x = cancelled) (bookings d) \<and>
    list_all (\<lambda>e. available_seats e + seats_booked b \<le> 2147483647)
      (filter (\<lambda>e. ev_id e = event_id b) (events d))"
  then have "distinct (map bk_id (bookings d))" by (simp add: bookings_ok_def)
  with h show "\<exists>d'. handleCancelBooking (Some (user_id b)) True (bk_id b) d = (CancelDone, d') \<and>
            bookings d' =
              map (\<lambda>x. if bk_id x = bk_id b then b\<lparr>booking_status := cancelled\<rparr> else x)
                (bookings d)"
    by (intro cancel_by_owner_succeeds) simp_all
qed

theorem cancel_only_by_owner_witness:
  "\<not> list_ex (\<lambda>b. bk_id b = 500 \<and> Some 9 = Some (user_id b)) (bookings user_booked_db) \<and>
   handleCancelBooking (Some 9) True 500 user_booked_db = (CancelDone, user_booked_db) \<and>
   stored_ok user_booked_db \<and> bookings_ok user_booked_db \<and>
   (\<exists>d'. handleCancelBooking (Some 1) True 500 user_booked_db = (CancelDone, d') \<and>
         map booking_status (bookings d') = [cancelled])"
  using cancel_only_by_owner
          [of 500 "Some 9" user_booked_db
              "\<lparr>bk_id = 500, user_id = 1, event_id = 100, seats_booked = 2,
                booking_status = confirmed\<rparr>"]
  by (simp add: user_booked_db_eq stored_ok_def bookings_ok_def portal_defs)

section \<open>The status of a booking\<close>








text \<open>
  C10. An update of a booking row changes the seat counts only when it moves the row
  from confirmed to cancelled, and then by adding the seats of the row to its event; no
  update of a booking lowers a seat count, and any other change of a booking leaves the
  events as they were. \<open>upd\<close> is any \<^verbatim>\<open>SET\<close> clause.
\<close>

theorem booking_update_seat_effect:
  assumes "update_booking a bid upd d = Inr d'"
  shows "user_profiles d' = user_profiles d \<and>
         (events d' = events d \<or>
          (\<exists>old\<in>set (bookings d). bk_id old = bid \<and> booking_status old = confirmed \<and>
             booking_status (upd old) = cancelled \<and>
             events d' = map (\<lambda>e. if ev_id e = event_id old
                                   then e\<lparr>available_seats := available_seats e + seats_booked old\<rparr>
                                   else e) (events d))) \<and>
         (stored_ok d \<longrightarrow> list_all2 (\<lambda>e e'. available_seats e \<le> available_seats e') (events d) (events d'))"
  using assms
proof (cases rule: update_booking_cases)
  case none
  then show ?thesis by (simp add: list_all2_same)
next
  case (row old)
  from row(1) have old: "old \<in> set (bookings d)" "bk_id old = bid"
    by (auto simp: find_Some_iff in_set_conv_nth)
  note fr = restore_seats_frame [OF row(2)]
  have pos: "0 < seats_booked old" if "stored_ok d"
    using that old(1) by (auto simp: stored_ok_def list_all_iff check_booking_def split: if_splits)
  show ?thesis
  proof (intro conjI impI)
    show "user_profiles d' = user_profiles d" using fr(1) by simp
    show "events d' = events d \<or>
          (\<exists>old\<in>set (bookings d). bk_id old = bid \<and> booking_status old = confirmed \<and>
             booking_status (upd old) = cancelled \<and>
             events d' = map (\<lambda>e. if ev_id e = event_id old
                                   then e\<lparr>available_seats := available_seats e + seats_booked old\<rparr>
                                   else e) (events d))"
      using fr(3) old by (auto split: if_splits)
    show "list_all2 (\<lambda>e e'. available_seats e \<le> available_seats e') (events d) (events d')" if "stored_ok d"
      using fr(3) pos [OF that] by (auto simp: list_all2_conv_all_nth split: if_splits)
  qed
qed

theorem booking_update_seat_effect_witness:
  "update_booking (Some 9) 500 (\<lambda>b. b\<lparr>booking_status := cancelled\<rparr>) admin_booked_db =
     Inr admin_cancelled_db \<and>
   stored_ok admin_booked_db \<and>
   user_profiles admin_cancelled_db = user_profiles admin_booked_db \<and>
   map available_seats (events admin_booked_db) = [3] \<and>
   map available_seats (events admin_cancelled_db) = [5] \<and>
   list_all2 (\<lambda>e e'. available_seats e \<le> available_seats e')
     (events admin_booked_db) (events admin_cancelled_db)"
proof -
  have upd: "update_booking (Some 9) 500 (\<lambda>b. b\<lparr>booking_status := cancelled\<rparr>) admin_booked_db =
               Inr admin_cancelled_db"
    by (simp add: admin_cancelled_db_eq admin_booked_db_eq portal_defs)
  have ok: "stored_ok admin_booked_db"
    by (simp add: admin_booked_db_eq stored_ok_def portal_defs)
  from booking_update_seat_effect [OF upd] upd ok show ?thesis
    by (simp add: admin_cancelled_db_eq admin_booked_db_eq)
qed

section \<open>Rejected reservations\<close>

text \<open>
  C7. A user who holds a confirmed booking of an event reserves again: the call fails
  and the store, seat counts included, is as before. When the request passes the
  checks that come first (a positive number of seats within the integer range, not more
  than the page shows, a fresh key) the failure is the violation of
  \<^verbatim>\<open>UNIQUE(user_id, event_id, booking_status)\<close>, raised when the row is inserted and
  before the trigger runs.
\<close>

theorem duplicate_active_booking_rejected:
  assumes "list_ex (\<lambda>b. user_id b = u \<and> event_id b = ev_id e \<and> booking_status b = confirmed) (bookings d)"
  shows "fst (handleBooking (Some u) (Some e) seats new_id d) \<noteq> BookingConfirmed \<and>
         snd (handleBooking (Some u) (Some e) seats new_id d) = d \<and>
         (0 < seats \<and> seats \<le> available_seats e \<and> int4 seats \<and>
          \<not> list_ex (\<lambda>b. bk_id b = new_id) (bookings d) \<longrightarrow>
          fst (handleBooking (Some u) (Some e) seats new_id d) =
            BookingError (UniqueViolation bookings_user_id_event_id_booking_status_key))"
  using assms
  by (auto simp: handleBooking_def insert_booking_def check_booking_def unique_conflict_def
           split: option.splits sum.splits if_splits)

theorem duplicate_active_booking_rejected_witness:
  "list_ex (\<lambda>b. user_id b = 1 \<and> event_id b = 100 \<and> booking_status b = confirmed)
     (bookings user_booked_db) \<and>
   handleBooking (Some 1) (fetchEvent 100 user_booked_db) 1 501 user_booked_db =
     (BookingError (UniqueViolation bookings_user_id_event_id_booking_status_key), user_booked_db)"
proof -
  let ?e = "\<lparr>ev_id = 100, title = ''Art Exhibition Opening Night'',
             total_seats = 5, available_seats = 5\<rparr>"
  have held: "list_ex (\<lambda>b. user_id b = 1 \<and> event_id b = ev_id ?e \<and> booking_status b = confirmed)
                (bookings user_booked_db)"
    by (simp add: user_booked_db_eq)
  have snap: "fetchEvent 100 user_booked_db = Some ?e"
    by (simp add: user_booked_db_eq fetchEvent_def)
  from duplicate_active_booking_rejected [OF held, of 1 501] held show ?thesis
    unfolding snap by (simp add: int4_def user_booked_db_eq prod_eq_iff)
qed

text \<open>
  C9. A Reserve call for zero or fewer seats fails and changes nothing: the insert is
  rejected by \<^verbatim>\<open>CHECK (seats_booked > 0)\<close>, or, for a number below the range of an
  integer, by the conversion of the number. The page holds an event read from the
  store, so that its \<open>available_seats\<close> is not negative.
\<close>

theorem nonpositive_quantity_rejected:
  assumes "seats \<le> 0" and "0 \<le> available_seats e"
  shows "handleBooking (Some u) (Some e) seats new_id d =
           (BookingError (if int4 seats then CheckViolation bookings_seats_booked_check
                          else NumericValueOutOfRange), d)"
  using assms by (simp add: handleBooking_def insert_booking_def check_booking_def)

theorem nonpositive_quantity_rejected_witness:
  "(0::int) \<le> 0 \<and>
   handleBooking (Some 1) (fetchEvent 100 sample_db) 0 500 sample_db =
     (BookingError (CheckViolation bookings_seats_booked_check), sample_db)"
proof -
  let ?e = "\<lparr>ev_id = 100, title = ''Art Exhibition Opening Night'',
             total_seats = 5, available_seats = 5\<rparr>"
  have snap: "fetchEvent 100 sample_db = Some ?e"
    by (simp add: sample_db_def fetchEvent_def)
  have "(0::int) \<le> 0" and "0 \<le> available_seats ?e" by simp_all
  from nonpositive_quantity_rejected [OF this, of 1 500 sample_db] show ?thesis
    unfolding snap by (simp add: int4_def)
qed

end
